theory Spec2Isabelle
  imports Main
begin

section \<open>Timestamps\<close>

text \<open>
  A Go \<^verbatim>\<open>time.Time\<close> is an instant together with a location. The model keeps the
  instant as nanoseconds since 1970-01-01T00:00:00Z and the location as a fixed offset in
  seconds east of UTC (UTC itself is offset 0; \<^verbatim>\<open>time.Now()\<close> yields the offset of the
  machine's local zone).
\<close>

record Time =
  unix_ns :: int
  zone_off :: int

definition ns_per_sec :: int where
  "ns_per_sec = 1000000000"

definition ns_per_day :: int where
  "ns_per_day = 86400 * ns_per_sec"

text \<open>Day number (days since 1970-01-01) of the wall clock shown in the time's location.\<close>

definition local_day :: "Time \<Rightarrow> int" where
  "local_day t = (unix_ns t div ns_per_sec + zone_off t) div 86400"

text \<open>Proleptic Gregorian calendar date (year, month, day) of a day number.\<close>

definition civil_of_days :: "int \<Rightarrow> int \<times> int \<times> int" where
  "civil_of_days z0 =
     (let z = z0 + 719468;
          era = z div 146097;
          doe = z mod 146097;
          yoe = (doe - doe div 1460 + doe div 36524 - doe div 146096) div 365;
          y = yoe + era * 400;
          doy = doe - (365 * yoe + yoe div 4 - yoe div 100);
          mp = (5 * doy + 2) div 153;
          d = doy - (153 * mp + 2) div 5 + 1;
          m = (if mp < 10 then mp + 3 else mp - 9)
      in (if m \<le> 2 then y + 1 else y, m, d))"

text \<open>\<^verbatim>\<open>t.Date()\<close>: the calendar date in the location of \<open>t\<close>.\<close>

definition Time_Date :: "Time \<Rightarrow> int \<times> int \<times> int" where
  "Time_Date t = civil_of_days (local_day t)"

fun decimal :: "nat \<Rightarrow> string" where
  "decimal n =
     (if n < 10 then [char_of (48 + n)]
      else decimal (n div 10) @ [char_of (48 + n mod 10)])"

declare decimal.simps [simp del]

text \<open>The formatter's \<^verbatim>\<open>appendInt\<close>: a sign, then the digits padded with zeros to the width.\<close>

definition appendInt :: "int \<Rightarrow> nat \<Rightarrow> string" where
  "appendInt x width =
     (let ds = decimal (nat \<bar>x\<bar>)
      in (if x < 0 then ''-'' else '''') @ replicate (width - length ds) (CHR ''0'') @ ds)"

text \<open>\<^verbatim>\<open>t.Format("2006")\<close>, \<^verbatim>\<open>t.Format("01")\<close> and \<^verbatim>\<open>t.Format("2006-01-02")\<close>.\<close>

definition Format_2006 :: "Time \<Rightarrow> string" where
  "Format_2006 t = (case Time_Date t of (y, m, d) \<Rightarrow> appendInt y 4)"

definition Format_01 :: "Time \<Rightarrow> string" where
  "Format_01 t = (case Time_Date t of (y, m, d) \<Rightarrow> appendInt m 2)"

definition Format_2006_01_02 :: "Time \<Rightarrow> string" where
  "Format_2006_01_02 t =
     (case Time_Date t of (y, m, d) \<Rightarrow> appendInt y 4 @ ''-'' @ appendInt m 2 @ ''-'' @ appendInt d 2)"

text \<open>\<^verbatim>\<open>t.After(u)\<close> compares instants, whatever the locations.\<close>

definition After :: "Time \<Rightarrow> Time \<Rightarrow> bool" where
  "After t u = (unix_ns u < unix_ns t)"

text \<open>
  \<^verbatim>\<open>t.AddDate(0, 0, n)\<close>: the same wall clock \<open>n\<close> calendar days later, in the same
  location; with a fixed offset this moves the instant by \<open>n\<close> times 24 hours.
\<close>

definition AddDate_days :: "Time \<Rightarrow> int \<Rightarrow> Time" where
  "AddDate_days t n = t\<lparr>unix_ns := unix_ns t + n * ns_per_day\<rparr>"

text \<open>\<^verbatim>\<open>t.IsZero()\<close>: the instant January 1, year 1, 00:00:00 UTC.\<close>

definition IsZero :: "Time \<Rightarrow> bool" where
  "IsZero t = (unix_ns t = - 62135596800 * ns_per_sec)"

text \<open>\<^verbatim>\<open>t.UTC()\<close>: the same instant shown in UTC.\<close>

definition UTC :: "Time \<Rightarrow> Time" where
  "UTC t = t\<lparr>zone_off := 0\<rparr>"

section \<open>The search index (pkg/models/index.go)\<close>

record Metadata =
  Id :: string
  Date :: Time
  Tags :: "string list"
  FilePath :: string

text \<open>
  The index; its \<^verbatim>\<open>Version\<close> string is the field \<open>IdxVersion\<close> here, the name
  \<open>Version\<close> being the entry's integer schema version below.
\<close>

record Index =
  IdxVersion :: string
  Entries :: "string \<rightharpoonup> Metadata"
  ByDate :: "string \<rightharpoonup> string list"
  ByTag :: "string \<rightharpoonup> string list"

text \<open>Reading a Go map of slices at a missing key gives the nil (empty) slice.\<close>

definition bucket :: "(string \<rightharpoonup> string list) \<Rightarrow> string \<Rightarrow> string list" where
  "bucket m k = (case m k of None \<Rightarrow> [] | Some b \<Rightarrow> b)"

definition NewIndex :: Index where
  "NewIndex = \<lparr>IdxVersion = ''1.0'', Entries = Map.empty, ByDate = Map.empty, ByTag = Map.empty\<rparr>"

fun appendUnique :: "string list \<Rightarrow> string \<Rightarrow> string list" where
  "appendUnique slice item = (if item \<in> set slice then slice else slice @ [item])"

fun removeString :: "string list \<Rightarrow> string \<Rightarrow> string list" where
  "removeString [] item = []"
| "removeString (s # slice) item =
     (if s \<noteq> item then s # removeString slice item else removeString slice item)"

definition add_tag :: "string \<Rightarrow> Index \<Rightarrow> string \<Rightarrow> Index" where
  "add_tag i idx tag = idx\<lparr>ByTag := (ByTag idx)(tag \<mapsto> appendUnique (bucket (ByTag idx) tag) i)\<rparr>"

definition Add :: "Index \<Rightarrow> 'a Metadata_scheme \<Rightarrow> Index" where
  "Add idx meta =
     (let commonMeta = \<lparr>Id = Id meta, Date = Date meta, Tags = Tags meta, FilePath = FilePath meta\<rparr>;
          idx1 = idx\<lparr>Entries := (Entries idx)(Id commonMeta \<mapsto> commonMeta)\<rparr>;
          dateKey = Format_2006_01_02 (Date commonMeta);
          idx2 = idx1\<lparr>ByDate := (ByDate idx1)(dateKey \<mapsto>
                   appendUnique (bucket (ByDate idx1) dateKey) (Id commonMeta))\<rparr>
      in foldl (add_tag (Id commonMeta)) idx2 (Tags commonMeta))"

definition remove_tag :: "string \<Rightarrow> Index \<Rightarrow> string \<Rightarrow> Index" where
  "remove_tag i idx tag =
     (let b = removeString (bucket (ByTag idx) tag) i
      in if length b = 0 then idx\<lparr>ByTag := (ByTag idx)(tag := None)\<rparr>
         else idx\<lparr>ByTag := (ByTag idx)(tag \<mapsto> b)\<rparr>)"

definition Remove :: "Index \<Rightarrow> string \<Rightarrow> Index" where
  "Remove idx i =
     (case Entries idx i of
        None \<Rightarrow> idx
      | Some meta \<Rightarrow>
          (let idx1 = idx\<lparr>Entries := (Entries idx)(i := None)\<rparr>;
               dateKey = Format_2006_01_02 (Date meta);
               b = removeString (bucket (ByDate idx1) dateKey) i;
               idx2 = (if length b = 0 then idx1\<lparr>ByDate := (ByDate idx1)(dateKey := None)\<rparr>
                       else idx1\<lparr>ByDate := (ByDate idx1)(dateKey \<mapsto> b)\<rparr>)
           in foldl (remove_tag i) idx2 (Tags meta)))"

definition FindByDate :: "Index \<Rightarrow> Time \<Rightarrow> string list" where
  "FindByDate idx date = bucket (ByDate idx) (Format_2006_01_02 date)"

text \<open>The inner loop of \<^verbatim>\<open>FindByDateRange\<close>: the results so far and the \<^verbatim>\<open>seen\<close> map.\<close>

fun collect_ids :: "string list \<times> (string \<Rightarrow> bool) \<Rightarrow> string list \<Rightarrow> string list \<times> (string \<Rightarrow> bool)" where
  "collect_ids (results, seen) [] = (results, seen)"
| "collect_ids (results, seen) (i # ids) =
     (if \<not> seen i then collect_ids (results @ [i], seen(i := True)) ids
      else collect_ids (results, seen) ids)"

function range_loop :: "Index \<Rightarrow> Time \<Rightarrow> Time \<Rightarrow> string list \<times> (string \<Rightarrow> bool) \<Rightarrow> string list \<times> (string \<Rightarrow> bool)" where
  "range_loop idx d end acc =
     (if \<not> After d end
      then range_loop idx (AddDate_days d 1) end
             (collect_ids acc (bucket (ByDate idx) (Format_2006_01_02 d)))
      else acc)"
  by pat_completeness auto
termination
  by (relation "measure (\<lambda>(idx, d, e, acc). nat (unix_ns e - unix_ns d + 1))")
     (auto simp: After_def AddDate_days_def ns_per_day_def ns_per_sec_def)

declare range_loop.simps [simp del]

definition FindByDateRange :: "Index \<Rightarrow> Time \<Rightarrow> Time \<Rightarrow> string list" where
  "FindByDateRange idx start end = fst (range_loop idx start end ([], \<lambda>_. False))"

definition FindByTag :: "Index \<Rightarrow> string \<Rightarrow> string list" where
  "FindByTag idx tag = bucket (ByTag idx) tag"

definition GetMetadata :: "Index \<Rightarrow> string \<Rightarrow> Metadata option" where
  "GetMetadata idx i = Entries idx i"

section \<open>The index invariant\<close>

definition date_ids :: "(string \<rightharpoonup> Metadata) \<Rightarrow> string \<Rightarrow> string set" where
  "date_ids es k = {i. \<exists>m. es i = Some m \<and> Format_2006_01_02 (Date m) = k}"

definition tag_ids :: "(string \<rightharpoonup> Metadata) \<Rightarrow> string \<Rightarrow> string set" where
  "tag_ids es t = {i. \<exists>m. es i = Some m \<and> t \<in> set (Tags m)}"

definition grouped_by :: "(string \<rightharpoonup> string list) \<Rightarrow> (string \<Rightarrow> string set) \<Rightarrow> bool" where
  "grouped_by buckets grp =
     (\<forall>k. case buckets k of
            None \<Rightarrow> grp k = {}
          | Some b \<Rightarrow> b \<noteq> [] \<and> distinct b \<and> set b = grp k)"

definition index_inv :: "Index \<Rightarrow> bool" where
  "index_inv idx =
     (grouped_by (ByDate idx) (date_ids (Entries idx)) \<and>
      grouped_by (ByTag idx) (tag_ids (Entries idx)))"

definition add_ok :: "Index \<Rightarrow> 'a Metadata_scheme \<Rightarrow> bool" where
  "add_ok idx meta =
     (case Entries idx (Id meta) of
        None \<Rightarrow> True
      | Some old \<Rightarrow> Format_2006_01_02 (Date old) = Format_2006_01_02 (Date meta) \<and>
                    set (Tags old) \<subseteq> set (Tags meta))"

datatype index_op = OpAdd Metadata | OpRemove string

fun apply_op :: "Index \<Rightarrow> index_op \<Rightarrow> Index" where
  "apply_op idx (OpAdd meta) = Add idx meta"
| "apply_op idx (OpRemove i) = Remove idx i"

fun ops_ok :: "Index \<Rightarrow> index_op list \<Rightarrow> bool" where
  "ops_ok idx [] = True"
| "ops_ok idx (OpAdd meta # ops) = (add_ok idx meta \<and> ops_ok (Add idx meta) ops)"
| "ops_ok idx (OpRemove i # ops) = ops_ok (Remove idx i) ops"

lemma removeString_filter: "removeString xs i = filter (\<lambda>s. s \<noteq> i) xs"
  by (induction xs) auto

lemma foldl_add_tag_Entries [simp]: "Entries (foldl (add_tag i) idx ts) = Entries idx"
  by (induction ts arbitrary: idx) (auto simp: add_tag_def)

lemma foldl_add_tag_ByDate [simp]: "ByDate (foldl (add_tag i) idx ts) = ByDate idx"
  by (induction ts arbitrary: idx) (auto simp: add_tag_def)

lemma set_appendUnique [simp]: "set (appendUnique xs i) = insert i (set xs)"
  by auto

lemma distinct_appendUnique [simp]: "distinct (appendUnique xs i) = distinct xs"
  by auto

lemma appendUnique_not_Nil [simp]: "appendUnique xs i \<noteq> []"
  by auto

lemma appendUnique_idem [simp]: "appendUnique (appendUnique xs i) i = appendUnique xs i"
  by auto

declare appendUnique.simps [simp del]

lemma add_tag_ByTag:
  "ByTag (add_tag i idx a) t =
     (if t = a then Some (appendUnique (bucket (ByTag idx) a) i) else ByTag idx t)"
  by (simp add: add_tag_def)

lemma add_tag_bucket:
  "bucket (ByTag (add_tag i idx a)) t =
     (if t = a then appendUnique (bucket (ByTag idx) a) i else bucket (ByTag idx) t)"
  by (simp add: bucket_def add_tag_ByTag)

lemma foldl_add_tag_ByTag:
  "ByTag (foldl (add_tag i) idx ts) t =
     (if t \<in> set ts then Some (appendUnique (bucket (ByTag idx) t) i) else ByTag idx t)"
proof (induction ts arbitrary: idx)
  case Nil
  show ?case by simp
next
  case (Cons a ts)
  have step: "ByTag (foldl (add_tag i) (add_tag i idx a) ts) t =
     (if t \<in> set ts then Some (appendUnique (bucket (ByTag (add_tag i idx a)) t) i)
      else ByTag (add_tag i idx a) t)"
    by (rule Cons.IH)
  show ?case
    unfolding foldl_Cons step add_tag_bucket add_tag_ByTag
    by simp
qed

lemma foldl_remove_tag_Entries [simp]: "Entries (foldl (remove_tag i) idx ts) = Entries idx"
  by (induction ts arbitrary: idx) (auto simp: remove_tag_def Let_def)

lemma foldl_remove_tag_ByDate [simp]: "ByDate (foldl (remove_tag i) idx ts) = ByDate idx"
  by (induction ts arbitrary: idx) (auto simp: remove_tag_def Let_def)

lemma removeString_idem [simp]: "removeString (removeString xs i) i = removeString xs i"
  by (simp add: removeString_filter)

lemma remove_tag_ByTag:
  "ByTag (remove_tag i idx a) t =
     (if t = a
      then (if removeString (bucket (ByTag idx) a) i = [] then None
            else Some (removeString (bucket (ByTag idx) a) i))
      else ByTag idx t)"
  by (simp add: remove_tag_def Let_def)

lemma remove_tag_bucket:
  "bucket (ByTag (remove_tag i idx a)) t =
     (if t = a then removeString (bucket (ByTag idx) a) i else bucket (ByTag idx) t)"
  by (simp add: bucket_def remove_tag_ByTag)

lemma foldl_remove_tag_ByTag:
  "ByTag (foldl (remove_tag i) idx ts) t =
     (if t \<in> set ts
      then (if removeString (bucket (ByTag idx) t) i = [] then None
            else Some (removeString (bucket (ByTag idx) t) i))
      else ByTag idx t)"
proof (induction ts arbitrary: idx)
  case Nil
  show ?case by simp
next
  case (Cons a ts)
  have step: "ByTag (foldl (remove_tag i) (remove_tag i idx a) ts) t =
     (if t \<in> set ts
      then (if removeString (bucket (ByTag (remove_tag i idx a)) t) i = [] then None
            else Some (removeString (bucket (ByTag (remove_tag i idx a)) t) i))
      else ByTag (remove_tag i idx a) t)"
    by (rule Cons.IH)
  show ?case
    unfolding foldl_Cons step remove_tag_bucket remove_tag_ByTag
    by simp
qed

lemma index_inv_NewIndex: "index_inv NewIndex"
  by (simp add: index_inv_def grouped_by_def NewIndex_def date_ids_def tag_ids_def)

lemma Add_Entries: "Entries (Add idx meta) = (Entries idx)(Id meta \<mapsto> Metadata.truncate meta)"
  by (simp add: Add_def Let_def Metadata.truncate_def)

lemma Add_ByDate:
  "ByDate (Add idx meta) k =
     (if k = Format_2006_01_02 (Date meta)
      then Some (appendUnique (bucket (ByDate idx) k) (Id meta)) else ByDate idx k)"
  by (simp add: Add_def Let_def)

lemma Add_ByTag:
  "ByTag (Add idx meta) t =
     (if t \<in> set (Tags meta)
      then Some (appendUnique (bucket (ByTag idx) t) (Id meta)) else ByTag idx t)"
  by (simp add: Add_def Let_def foldl_add_tag_ByTag)

lemma grouped_by_bucket:
  "grouped_by m grp \<Longrightarrow> set (bucket m k) = grp k \<and> distinct (bucket m k)"
proof -
  assume "grouped_by m grp"
  then have "case m k of None \<Rightarrow> grp k = {} | Some b \<Rightarrow> b \<noteq> [] \<and> distinct b \<and> set b = grp k"
    unfolding grouped_by_def by (rule spec)
  then show ?thesis
    by (simp add: bucket_def split: option.splits)
qed

lemma index_inv_Add:
  assumes inv: "index_inv idx" and ok: "add_ok idx meta"
  shows "index_inv (Add idx meta)"
proof -
  let ?es = "Entries idx" and ?i = "Id meta"
  let ?es' = "(Entries idx)(Id meta \<mapsto> Metadata.truncate meta)"
  let ?dk = "Format_2006_01_02 (Date meta)"
  have gd: "grouped_by (ByDate idx) (date_ids ?es)" and gt: "grouped_by (ByTag idx) (tag_ids ?es)"
    using inv by (auto simp: index_inv_def)
  have d_same: "date_ids ?es' ?dk = insert ?i (date_ids ?es ?dk)"
    by (auto simp: date_ids_def Metadata.truncate_def)
  have d_other: "date_ids ?es' k = date_ids ?es k" if "k \<noteq> ?dk" for k
    using that ok by (auto simp: date_ids_def Metadata.truncate_def add_ok_def split: option.splits if_splits)
  have t_same: "tag_ids ?es' t = insert ?i (tag_ids ?es t)" if "t \<in> set (Tags meta)" for t
    using that by (auto simp: tag_ids_def Metadata.truncate_def)
  have t_other: "tag_ids ?es' t = tag_ids ?es t" if "t \<notin> set (Tags meta)" for t
    using that ok by (auto simp: tag_ids_def Metadata.truncate_def add_ok_def split: option.splits if_splits)
  have "grouped_by (ByDate (Add idx meta)) (date_ids ?es')"
    unfolding grouped_by_def
  proof
    fix k
    show "case ByDate (Add idx meta) k of None \<Rightarrow> date_ids ?es' k = {}
          | Some b \<Rightarrow> b \<noteq> [] \<and> distinct b \<and> set b = date_ids ?es' k"
    proof (cases "k = ?dk")
      case True
      then show ?thesis
        using grouped_by_bucket[OF gd, of ?dk] d_same by (auto simp: Add_ByDate)
    next
      case False
      then show ?thesis
        using gd[unfolded grouped_by_def, rule_format, of k] d_other[OF False]
        by (simp add: Add_ByDate split: option.splits)
    qed
  qed
  moreover have "grouped_by (ByTag (Add idx meta)) (tag_ids ?es')"
    unfolding grouped_by_def
  proof
    fix t
    show "case ByTag (Add idx meta) t of None \<Rightarrow> tag_ids ?es' t = {}
          | Some b \<Rightarrow> b \<noteq> [] \<and> distinct b \<and> set b = tag_ids ?es' t"
    proof (cases "t \<in> set (Tags meta)")
      case True
      then show ?thesis
        using grouped_by_bucket[OF gt, of t] t_same[OF True] by (auto simp: Add_ByTag)
    next
      case False
      then show ?thesis
        using gt[unfolded grouped_by_def, rule_format, of t] t_other[OF False]
        by (simp add: Add_ByTag split: option.splits)
    qed
  qed
  ultimately show ?thesis
    by (simp add: index_inv_def Add_Entries)
qed

lemma set_removeString [simp]: "set (removeString xs i) = set xs - {i}"
  by (auto simp: removeString_filter)

lemma distinct_removeString [simp]: "distinct xs \<Longrightarrow> distinct (removeString xs i)"
  by (simp add: removeString_filter)

lemma Remove_None: "Entries idx i = None \<Longrightarrow> Remove idx i = idx"
  by (simp add: Remove_def)

lemma Remove_Entries: "Entries (Remove idx i) = (Entries idx)(i := None)"
  by (cases "Entries idx i") (auto simp: Remove_def Let_def)

lemma Remove_ByDate:
  "Entries idx i = Some meta \<Longrightarrow>
   ByDate (Remove idx i) k =
     (if k = Format_2006_01_02 (Date meta)
      then (if removeString (bucket (ByDate idx) k) i = [] then None
            else Some (removeString (bucket (ByDate idx) k) i))
      else ByDate idx k)"
  by (simp add: Remove_def Let_def)

lemma Remove_ByTag:
  "Entries idx i = Some meta \<Longrightarrow>
   ByTag (Remove idx i) t =
     (if t \<in> set (Tags meta)
      then (if removeString (bucket (ByTag idx) t) i = [] then None
            else Some (removeString (bucket (ByTag idx) t) i))
      else ByTag idx t)"
  by (simp add: Remove_def Let_def foldl_remove_tag_ByTag)

lemma grouped_by_remove:
  assumes g: "grouped_by m grp"
    and same: "\<And>k. k \<in> K \<Longrightarrow> grp' k = grp k - {i}"
    and other: "\<And>k. k \<notin> K \<Longrightarrow> grp' k = grp k"
    and m': "\<And>k. m' k = (if k \<in> K
                  then (if removeString (bucket m k) i = [] then None
                        else Some (removeString (bucket m k) i))
                  else m k)"
  shows "grouped_by m' grp'"
  unfolding grouped_by_def
proof
  fix k
  show "case m' k of None \<Rightarrow> grp' k = {} | Some b \<Rightarrow> b \<noteq> [] \<and> distinct b \<and> set b = grp' k"
  proof (cases "k \<in> K")
    case True
    have b: "set (bucket m k) = grp k" "distinct (bucket m k)"
      using grouped_by_bucket[OF g, of k] by auto
    have s: "set (removeString (bucket m k) i) = grp' k"
      using b same[OF True] by simp
    have d: "distinct (removeString (bucket m k) i)"
      using b by simp
    show ?thesis
    proof (cases "removeString (bucket m k) i = []")
      case Nil: True
      have "m' k = None"
        using \<open>k \<in> K\<close> Nil by (simp add: m')
      moreover have "grp' k = {}"
        using s Nil by simp
      ultimately show ?thesis by simp
    next
      case NotNil: False
      have "m' k = Some (removeString (bucket m k) i)"
        using \<open>k \<in> K\<close> NotNil by (simp add: m')
      then show ?thesis
        using s d NotNil by simp
    qed
  next
    case False
    then show ?thesis
      using g[unfolded grouped_by_def, rule_format, of k] other[OF False]
      by (simp add: m' split: option.splits)
  qed
qed

lemma index_inv_Remove:
  assumes inv: "index_inv idx"
  shows "index_inv (Remove idx i)"
proof (cases "Entries idx i")
  case None
  then show ?thesis using inv by (simp add: Remove_None)
next
  case (Some meta)
  let ?es = "Entries idx"
  let ?es' = "(Entries idx)(i := None)"
  let ?dk = "Format_2006_01_02 (Date meta)"
  have gd: "grouped_by (ByDate idx) (date_ids ?es)" and gt: "grouped_by (ByTag idx) (tag_ids ?es)"
    using inv by (auto simp: index_inv_def)
  have "grouped_by (ByDate (Remove idx i)) (date_ids ?es')"
  proof (rule grouped_by_remove[OF gd, where K = "{?dk}"])
    fix k assume "k \<in> {?dk}"
    then show "date_ids ?es' k = date_ids ?es k - {i}"
      by (auto simp: date_ids_def)
  next
    fix k assume "k \<notin> {?dk}"
    then show "date_ids ?es' k = date_ids ?es k"
      using Some by (auto simp: date_ids_def)
  next
    fix k
    show "ByDate (Remove idx i) k =
       (if k \<in> {?dk}
        then if removeString (bucket (ByDate idx) k) i = [] then None
             else Some (removeString (bucket (ByDate idx) k) i)
        else ByDate idx k)"
      by (simp add: Remove_ByDate[OF Some])
  qed
  moreover have "grouped_by (ByTag (Remove idx i)) (tag_ids ?es')"
  proof (rule grouped_by_remove[OF gt, where K = "set (Tags meta)"])
    fix t assume "t \<in> set (Tags meta)"
    then show "tag_ids ?es' t = tag_ids ?es t - {i}"
      by (auto simp: tag_ids_def)
  next
    fix t assume "t \<notin> set (Tags meta)"
    then show "tag_ids ?es' t = tag_ids ?es t"
      using Some by (auto simp: tag_ids_def)
  next
    fix t
    show "ByTag (Remove idx i) t =
       (if t \<in> set (Tags meta)
        then if removeString (bucket (ByTag idx) t) i = [] then None
             else Some (removeString (bucket (ByTag idx) t) i)
        else ByTag idx t)"
      by (simp add: Remove_ByTag[OF Some])
  qed
  ultimately show ?thesis
    by (simp add: index_inv_def Remove_Entries)
qed

lemma index_inv_run:
  "index_inv idx \<Longrightarrow> ops_ok idx ops \<Longrightarrow> n \<le> length ops \<Longrightarrow>
   index_inv (foldl apply_op idx (take n ops))"
proof (induction ops arbitrary: idx n)
  case Nil
  then show ?case by simp
next
  case (Cons op ops)
  show ?case
  proof (cases n)
    case 0
    then show ?thesis using Cons.prems by simp
  next
    case (Suc k)
    have "index_inv (apply_op idx op) \<and> ops_ok (apply_op idx op) ops"
      using Cons.prems by (cases op) (auto intro: index_inv_Add index_inv_Remove)
    then show ?thesis
      using Cons.IH[of "apply_op idx op" k] Cons.prems Suc by simp
  qed
qed

subsection \<open>Claim C2: the secondary maps group the primary map\<close>

definition meta1 :: Metadata where
  "meta1 = \<lparr>Id = ''entry-1'', Date = \<lparr>unix_ns = 1732024800000000000, zone_off = 0\<rparr>,
             Tags = [''work'', ''meeting''], FilePath = ''2024/11/entry-1.yaml''\<rparr>"

definition meta1_retagged :: Metadata where
  "meta1_retagged = meta1\<lparr>Tags := [''personal'']\<rparr>"

text \<open>
  Claim C2 as stated fails: adding \<open>entry-1\<close> with tags work and meeting and then adding
  the same id again with the single tag personal, with no \<^verbatim>\<open>Remove\<close> in between, leaves
  \<open>entry-1\<close> in the bucket of the tag work, which the entry no longer carries.
\<close>

theorem index_groupings_counterexample:
  "\<not> index_inv (foldl apply_op NewIndex [OpAdd meta1, OpAdd meta1_retagged])"
proof
  let ?idx = "foldl apply_op NewIndex [OpAdd meta1, OpAdd meta1_retagged]"
  assume "index_inv ?idx"
  then have g: "grouped_by (ByTag ?idx) (tag_ids (Entries ?idx))"
    by (simp add: index_inv_def)
  have b: "ByTag ?idx ''work'' = Some [''entry-1'']"
    by (simp add: Add_ByTag meta1_def meta1_retagged_def NewIndex_def bucket_def appendUnique.simps)
  have e: "tag_ids (Entries ?idx) ''work'' = {}"
    by (auto simp: tag_ids_def Add_Entries meta1_def meta1_retagged_def NewIndex_def Metadata.truncate_def)
  from g[unfolded grouped_by_def, rule_format, of "''work''"] b e show False
    by simp
qed

text \<open>
  Claim C2, amended: for every sequence of \<^verbatim>\<open>Add\<close> and \<^verbatim>\<open>Remove\<close> operations starting from
  the empty index in which every \<^verbatim>\<open>Add\<close> either brings an id that is not in the index at
  that moment (callers remove before they add, as \<^verbatim>\<open>Journal.Update\<close> does) or re-adds a
  present id with the same day and with at least the tags it had, after each operation
  the date buckets are exactly the grouping of \<^verbatim>\<open>Entries\<close> by the day of each entry's
  date and the tag buckets are exactly the grouping by tag membership: no bucket holds a
  stale or repeated id and no bucket is empty.
\<close>

theorem index_groupings_hold:
  assumes "ops_ok NewIndex ops" and "n \<le> length ops"
  shows "index_inv (foldl apply_op NewIndex (take n ops))"
  using index_inv_run[OF index_inv_NewIndex assms] .

theorem index_groupings_witness:
  "ops_ok NewIndex [OpAdd meta1, OpRemove ''entry-1'', OpAdd meta1_retagged] \<and>
   (3::nat) \<le> length [OpAdd meta1, OpRemove ''entry-1'', OpAdd meta1_retagged] \<and>
   index_inv (foldl apply_op NewIndex (take 3 [OpAdd meta1, OpRemove ''entry-1'', OpAdd meta1_retagged]))"
proof -
  have ok: "ops_ok NewIndex [OpAdd meta1, OpRemove ''entry-1'', OpAdd meta1_retagged]"
    by (simp add: add_ok_def Add_Entries Remove_Entries NewIndex_def meta1_def meta1_retagged_def)
  have len: "(3::nat) \<le> length [OpAdd meta1, OpRemove ''entry-1'', OpAdd meta1_retagged]"
    by simp
  from index_groupings_hold[OF ok len] ok len show ?thesis
    by blast
qed

section \<open>Date range search\<close>

definition acc_ok :: "string list \<times> (string \<Rightarrow> bool) \<Rightarrow> bool" where
  "acc_ok acc = (distinct (fst acc) \<and> (\<forall>i. snd acc i = (i \<in> set (fst acc))))"

lemma collect_ids_ok:
  "acc_ok acc \<Longrightarrow>
   acc_ok (collect_ids acc ids) \<and> set (fst (collect_ids acc ids)) = set (fst acc) \<union> set ids"
proof (induction ids arbitrary: acc)
  case Nil
  then show ?case by (cases acc) simp
next
  case (Cons i ids)
  obtain results seen where acc: "acc = (results, seen)" by (cases acc)
  show ?case
  proof (cases "seen i")
    case True
    then have "i \<in> set results" using Cons.prems acc by (simp add: acc_ok_def)
    then show ?thesis using Cons.IH[OF Cons.prems] True acc by auto
  next
    case False
    then have ni: "i \<notin> set results" using Cons.prems acc by (simp add: acc_ok_def)
    have ok': "acc_ok (results @ [i], seen(i := True))"
      using Cons.prems acc ni by (auto simp: acc_ok_def)
    show ?thesis using Cons.IH[OF ok'] False acc by auto
  qed
qed

lemma acc_ok_empty: "acc_ok ([], \<lambda>_. False)"
  by (simp add: acc_ok_def)

lemma After_next_day: "After (AddDate_days d 1) d"
  by (simp add: After_def AddDate_days_def ns_per_day_def ns_per_sec_def)

lemma not_After_self: "\<not> After d d"
  by (simp add: After_def)

lemma FindByDateRange_same_day:
  "set (FindByDateRange idx d d) = set (FindByDate idx d) \<and> distinct (FindByDateRange idx d d)"
proof -
  have "range_loop idx d d ([], \<lambda>_. False) =
        collect_ids ([], \<lambda>_. False) (bucket (ByDate idx) (Format_2006_01_02 d))"
    by (subst range_loop.simps, simp add: not_After_self)
       (subst range_loop.simps, simp add: After_next_day)
  then show ?thesis
    using collect_ids_ok[OF acc_ok_empty, of "bucket (ByDate idx) (Format_2006_01_02 d)"]
    by (simp add: FindByDateRange_def FindByDate_def acc_ok_def)
qed
definition visited_days :: "Time \<Rightarrow> Time \<Rightarrow> Time set" where
  "visited_days start end = {AddDate_days start (int k) | k. \<not> After (AddDate_days start (int k)) end}"

lemma AddDate_days_add: "AddDate_days (AddDate_days d a) b = AddDate_days d (a + b)"
  by (simp add: AddDate_days_def algebra_simps)

lemma AddDate_days_0 [simp]: "AddDate_days d 0 = d"
  by (simp add: AddDate_days_def)

lemma After_mono: "After (AddDate_days d (int k)) e \<Longrightarrow> After (AddDate_days d (int (Suc k))) e"
  by (simp add: After_def AddDate_days_def ns_per_day_def ns_per_sec_def algebra_simps)

lemma visited_days_step:
  "\<not> After d e \<Longrightarrow> visited_days d e = insert d (visited_days (AddDate_days d 1) e)"
proof (intro set_eqI iffI)
  fix t assume nd: "\<not> After d e" and "t \<in> visited_days d e"
  then obtain k where k: "t = AddDate_days d (int k)" "\<not> After (AddDate_days d (int k)) e"
    by (auto simp: visited_days_def)
  show "t \<in> insert d (visited_days (AddDate_days d 1) e)"
  proof (cases k)
    case 0
    then show ?thesis using k by simp
  next
    case (Suc j)
    then have "t = AddDate_days (AddDate_days d 1) (int j)"
      using k by (simp add: AddDate_days_add)
    then show ?thesis using k by (auto simp: visited_days_def)
  qed
next
  fix t assume nd: "\<not> After d e" and "t \<in> insert d (visited_days (AddDate_days d 1) e)"
  then consider "t = d" | j where "t = AddDate_days (AddDate_days d 1) (int j)"
      "\<not> After (AddDate_days (AddDate_days d 1) (int j)) e"
    by (auto simp: visited_days_def)
  then show "t \<in> visited_days d e"
  proof cases
    case 1
    then have "t = AddDate_days d (int 0) \<and> \<not> After (AddDate_days d (int 0)) e"
      using nd by simp
    then show ?thesis unfolding visited_days_def by blast
  next
    case 2
    then have "t = AddDate_days d (int (Suc j))" "\<not> After (AddDate_days d (int (Suc j))) e"
      by (simp_all add: AddDate_days_add)
    then show ?thesis unfolding visited_days_def by blast
  qed
qed

lemma visited_days_empty: "After d e \<Longrightarrow> visited_days d e = {}"
proof -
  assume a: "After d e"
  have "After (AddDate_days d (int k)) e" for k
    using a by (simp add: After_def AddDate_days_def ns_per_day_def ns_per_sec_def)
  then show ?thesis by (auto simp: visited_days_def)
qed

lemma range_loop_visits:
  "acc_ok acc \<Longrightarrow>
   acc_ok (range_loop idx d e acc) \<and>
   set (fst (range_loop idx d e acc)) =
     set (fst acc) \<union> (\<Union>t \<in> visited_days d e. set (bucket (ByDate idx) (Format_2006_01_02 t)))"
proof (induction idx d e acc rule: range_loop.induct)
  case (1 idx d e acc)
  show ?case
  proof (cases "After d e")
    case True
    then show ?thesis
      using "1.prems" by (subst (1 2) range_loop.simps) (simp add: visited_days_empty)
  next
    case False
    let ?acc' = "collect_ids acc (bucket (ByDate idx) (Format_2006_01_02 d))"
    have c: "acc_ok ?acc'" "set (fst ?acc') = set (fst acc) \<union> set (bucket (ByDate idx) (Format_2006_01_02 d))"
      using collect_ids_ok[OF "1.prems"] by auto
    have r: "range_loop idx d e acc = range_loop idx (AddDate_days d 1) e ?acc'"
      using False by (subst range_loop.simps) simp
    show ?thesis
      using "1.IH"[OF False c(1)] c(2)
      unfolding r visited_days_step[OF False] by auto
  qed
qed

lemma FindByDateRange_visits:
  "set (FindByDateRange idx start end) =
     (\<Union>t \<in> visited_days start end. set (FindByDate idx t)) \<and>
   distinct (FindByDateRange idx start end)"
  using range_loop_visits[OF acc_ok_empty, of idx start "end"]
  by (simp add: FindByDateRange_def FindByDate_def acc_ok_def)

subsection \<open>Claim C8: the days a range search visits\<close>

definition meta2 :: Metadata where
  "meta2 = \<lparr>Id = ''entry-2'', Date = \<lparr>unix_ns = 1732096800000000000, zone_off = 0\<rparr>,
             Tags = [''personal''], FilePath = ''2024/11/entry-2.yaml''\<rparr>"

text \<open>
  Claim C8: for \<open>start \<le> end\<close>, \<^verbatim>\<open>FindByDateRange\<close> returns the union of the day buckets
  of every calendar day from the day of \<open>start\<close> through the day of \<open>end\<close>. The loop
  steps from \<open>start\<close> by whole days and stops as soon as the stepped time lies after
  \<open>end\<close>, so the day of \<open>end\<close> is left out whenever the clock time of \<open>end\<close> is
  earlier than the clock time of \<open>start\<close>. With \<open>entry-1\<close> dated 2024-11-19T14:00Z and
  \<open>entry-2\<close> dated 2024-11-20T10:00Z, the range from 2024-11-19T14:00Z to
  2024-11-20T10:00Z yields \<open>entry-1\<close> alone, although the bucket of the day of \<open>end\<close>
  holds \<open>entry-2\<close>.
\<close>

theorem FindByDateRange_skips_end_day:
  "\<not> After \<lparr>unix_ns = 1732024800000000000, zone_off = 0\<rparr>
           \<lparr>unix_ns = 1732096800000000000, zone_off = 0\<rparr> \<and>
   FindByDateRange (Add (Add NewIndex meta1) meta2)
     \<lparr>unix_ns = 1732024800000000000, zone_off = 0\<rparr>
     \<lparr>unix_ns = 1732096800000000000, zone_off = 0\<rparr> = [''entry-1''] \<and>
   FindByDate (Add (Add NewIndex meta1) meta2)
     \<lparr>unix_ns = 1732096800000000000, zone_off = 0\<rparr> = [''entry-2'']"
  by code_simp

section \<open>Errors, paths and the environment\<close>

text \<open>
  Go errors as values. \<open>OsError\<close> is an error raised by the operating system or by
  the encryption provider, known by its message; \<open>Wrap m e\<close> is
  \<^verbatim>\<open>fmt.Errorf(m + ": %w", e)\<close>, \<open>Msg m\<close> is \<^verbatim>\<open>fmt.Errorf(m)\<close>, \<open>WrapAlso m e r\<close> is
  \<^verbatim>\<open>fmt.Errorf(m + ": %w (rollback also failed: %v)", e, r)\<close> and \<open>WrapOriginal m e s\<close> is
  \<^verbatim>\<open>fmt.Errorf(m + ": %w\nOriginal error: %s", e, s)\<close>.
\<close>

datatype error =
    ErrNotExist
  | OsError string
  | Msg string
  | Wrap string error
  | WrapAlso string error error
  | WrapOriginal string error string

fun error_text :: "error \<Rightarrow> string" where
  "error_text ErrNotExist = ''file does not exist''"
| "error_text (OsError m) = m"
| "error_text (Msg m) = m"
| "error_text (Wrap m e) = m @ '': '' @ error_text e"
| "error_text (WrapAlso m e r) =
     m @ '': '' @ error_text e @ '' (rollback also failed: '' @ error_text r @ '')''"
| "error_text (WrapOriginal m e s) = m @ '': '' @ error_text e @ [CHR 0x0A] @ ''Original error: '' @ s"

text \<open>\<^verbatim>\<open>os.IsNotExist\<close> on the errors the model's file system raises.\<close>

fun IsNotExist :: "error option \<Rightarrow> bool" where
  "IsNotExist (Some ErrNotExist) = True"
| "IsNotExist _ = False"

subsection \<open>\<^verbatim>\<open>path/filepath\<close> with the separator \<open>/\<close>\<close>

fun split_on :: "char \<Rightarrow> string \<Rightarrow> string list" where
  "split_on c [] = [[]]"
| "split_on c (x # xs) =
     (if x = c then [] # split_on c xs
      else (case split_on c xs of [] \<Rightarrow> [[x]] | y # ys \<Rightarrow> (x # y) # ys))"

fun strings_Join :: "string list \<Rightarrow> string \<Rightarrow> string" where
  "strings_Join [] sep = []"
| "strings_Join [e] sep = e"
| "strings_Join (e # es) sep = e @ sep @ strings_Join es sep"

text \<open>
  One step of \<^verbatim>\<open>filepath.Clean\<close> over the components kept so far: empty components and
  \<open>.\<close> are dropped, \<open>..\<close> removes the component before it (or stays, in a relative
  path that has nothing left to remove), anything else is kept.
\<close>

definition clean_step :: "bool \<Rightarrow> string list \<Rightarrow> string \<Rightarrow> string list" where
  "clean_step rooted out elem =
     (if elem = '''' \<or> elem = ''.'' then out
      else if elem = ''..'' then
        (if out \<noteq> [] \<and> last out \<noteq> ''..'' then butlast out
         else if rooted then out else out @ [''..''])
      else out @ [elem])"

definition Clean :: "string \<Rightarrow> string" where
  "Clean path =
     (if path = '''' then ''.''
      else (let rooted = (hd path = CHR ''/'');
                body = strings_Join (foldl (clean_step rooted) [] (split_on (CHR ''/'') path)) ''/''
            in if rooted then ''/'' @ body else if body = '''' then ''.'' else body))"

text \<open>\<^verbatim>\<open>filepath.Join\<close>: leading empty elements are ignored, the rest is joined and cleaned.\<close>

fun Join :: "string list \<Rightarrow> string" where
  "Join [] = ''''"
| "Join (e # es) = (if e \<noteq> '''' then Clean (strings_Join (e # es) ''/'') else Join es)"

declare Join.simps [simp del]

subsection \<open>Entries (pkg/models/entry.go)\<close>

text \<open>
  \<^verbatim>\<open>MetadataV1\<close> carries the four metadata fields and the schema version; \<^verbatim>\<open>EntryV1\<close>
  embeds it inline and adds the content. Record extension plays the part of the embedding,
  so the getters \<open>Id\<close>, \<open>Date\<close>, \<open>Tags\<close> and \<open>FilePath\<close> apply to all three.
\<close>

record MetadataV1 = Metadata +
  Version :: int

record EntryV1 = MetadataV1 +
  Content :: string

definition CurrentVersion :: int where
  "CurrentVersion = 1"

definition NewEntryV1 :: "string \<Rightarrow> Time \<Rightarrow> string \<Rightarrow> string list \<Rightarrow> string \<Rightarrow> EntryV1" where
  "NewEntryV1 i date content tags filepath =
     \<lparr>Id = i, Date = date, Tags = tags, FilePath = filepath, Version = 1, Content = content\<rparr>"

record CreationRule =
  PathRegex :: string
  Age :: string

record SOPSConfig =
  CreationRules :: "CreationRule list"

subsection \<open>The external collaborators\<close>

text \<open>
  The YAML library and the encryption provider are outside the repository; the model takes
  them as functions. \<open>Marshal_entry\<close> and \<open>Marshal_index\<close> are \<^verbatim>\<open>yaml.Marshal\<close> at the two
  types it is called at, \<open>Unmarshal_version\<close>, \<open>Unmarshal_entry\<close> and \<open>Unmarshal_index\<close>
  are \<^verbatim>\<open>yaml.Unmarshal\<close> into a \<^verbatim>\<open>versionDetector\<close>, an \<^verbatim>\<open>EntryV1\<close> and an \<^verbatim>\<open>Index\<close>.
  \<open>sops_encrypt\<close> takes the recipients and the plain YAML to the encrypted file content or
  fails, \<open>sops_decrypt\<close> takes a file content back to the plain YAML or fails.
  \<open>ParseX25519Recipient\<close> is the age library's check of a public key; \<open>Marshal_sops\<close>
  and \<open>Unmarshal_sops\<close> are the YAML library at the type \<^verbatim>\<open>SOPSConfig\<close>.
  \<open>faults\<close> says which file-system calls fail: the \<open>n\<close>-th fallible call fails with the
  given message when \<open>faults n\<close> is not \<open>None\<close>. \<open>pid\<close> is \<^verbatim>\<open>os.Getpid()\<close>.
\<close>

record Env =
  Marshal_entry :: "EntryV1 \<Rightarrow> error + string"
  Marshal_index :: "Index \<Rightarrow> error + string"
  Unmarshal_version :: "string \<Rightarrow> error + int"
  Unmarshal_entry :: "string \<Rightarrow> error + EntryV1"
  Unmarshal_index :: "string \<Rightarrow> error + Index"
  sops_encrypt :: "string list \<Rightarrow> string \<Rightarrow> error + string"
  sops_decrypt :: "string \<Rightarrow> error + string"
  ParseX25519Recipient :: "string \<Rightarrow> error option"
  Marshal_sops :: "SOPSConfig \<Rightarrow> error + string"
  Unmarshal_sops :: "string \<Rightarrow> error + SOPSConfig"
  faults :: "nat \<Rightarrow> string option"
  pid :: nat

text \<open>The files on disk, the number of fallible file-system calls made so far, and standard output.\<close>

record World =
  files :: "string \<rightharpoonup> string"
  tick :: nat
  stdout :: "string list"

definition os_Stat :: "World \<Rightarrow> string \<Rightarrow> error option" where
  "os_Stat w p = (if files w p = None then Some ErrNotExist else None)"

definition os_ReadFile :: "Env \<Rightarrow> World \<Rightarrow> string \<Rightarrow> (error + string) \<times> World" where
  "os_ReadFile env w p =
     (let w' = w\<lparr>tick := tick w + 1\<rparr>
      in case faults env (tick w) of
           Some m \<Rightarrow> (Inl (OsError m), w')
         | None \<Rightarrow> (case files w p of None \<Rightarrow> (Inl ErrNotExist, w') | Some b \<Rightarrow> (Inr b, w')))"

definition os_WriteFile :: "Env \<Rightarrow> World \<Rightarrow> string \<Rightarrow> string \<Rightarrow> error option \<times> World" where
  "os_WriteFile env w p b =
     (let w' = w\<lparr>tick := tick w + 1\<rparr>
      in case faults env (tick w) of
           Some m \<Rightarrow> (Some (OsError m), w')
         | None \<Rightarrow> (None, w'\<lparr>files := (files w')(p \<mapsto> b)\<rparr>))"

definition os_Remove :: "Env \<Rightarrow> World \<Rightarrow> string \<Rightarrow> error option \<times> World" where
  "os_Remove env w p =
     (let w' = w\<lparr>tick := tick w + 1\<rparr>
      in case faults env (tick w) of
           Some m \<Rightarrow> (Some (OsError m), w')
         | None \<Rightarrow> (case files w p of
                       None \<Rightarrow> (Some ErrNotExist, w')
                     | Some b \<Rightarrow> (None, w'\<lparr>files := (files w')(p := None)\<rparr>)))"

text \<open>Directories are not tracked: \<^verbatim>\<open>os.MkdirAll\<close> either fails or does nothing visible.\<close>

definition os_MkdirAll :: "Env \<Rightarrow> World \<Rightarrow> string \<Rightarrow> error option \<times> World" where
  "os_MkdirAll env w p =
     (let w' = w\<lparr>tick := tick w + 1\<rparr>
      in case faults env (tick w) of
           Some m \<Rightarrow> (Some (OsError m), w')
         | None \<Rightarrow> (None, w'))"


section \<open>Encoding and decoding entries (pkg/models/entry.go)\<close>

text \<open>\<^verbatim>\<open>ToYaml\<close> stamps the version on the receiver before it marshals it.\<close>

definition ToYaml :: "Env \<Rightarrow> EntryV1 \<Rightarrow> (error + string) \<times> EntryV1" where
  "ToYaml env e = (let e' = e\<lparr>Version := 1\<rparr> in (Marshal_entry env e', e'))"

text \<open>The verb \<^verbatim>\<open>%d\<close>.\<close>

definition fmt_d :: "int \<Rightarrow> string" where
  "fmt_d x = appendInt x 0"

definition ParseYaml :: "Env \<Rightarrow> string \<Rightarrow> error + EntryV1" where
  "ParseYaml env content =
     (case Unmarshal_version env content of
        Inl err \<Rightarrow> Inl (Wrap ''failed to detect version'' err)
      | Inr detector_Version \<Rightarrow>
          if detector_Version = 1 then
            (case Unmarshal_entry env content of
               Inl err \<Rightarrow> Inl (Wrap ''failed to parse YAML as V1'' err)
             | Inr entry \<Rightarrow>
                 if Version entry \<noteq> 1 then
                   Inl (Msg (''failed to parse YAML as V1: invalid version: '' @ fmt_d (Version entry)))
                 else if Id entry = '''' then Inl (Msg ''entry ID is required'')
                 else if IsZero (Date entry) then Inl (Msg ''entry date is required'')
                 else Inr entry)
          else Inl (Msg (''unsupported entry version: '' @ fmt_d detector_Version)))"

section \<open>The encryptor (internal/crypto/crypto.go)\<close>

record Encryptor =
  journalPath :: string
  recipients :: "string list"

text \<open>ASCII white space, for \<^verbatim>\<open>strings.TrimSpace\<close>.\<close>

definition is_space :: "char \<Rightarrow> bool" where
  "is_space c = (c \<in> set [CHR '' '', CHR 0x09, CHR 0x0A, CHR 0x0B, CHR 0x0C, CHR 0x0D])"

definition TrimSpace :: "string \<Rightarrow> string" where
  "TrimSpace s = rev (dropWhile is_space (rev (dropWhile is_space s)))"

definition ReadSOPSConfig :: "Env \<Rightarrow> World \<Rightarrow> string \<Rightarrow> (error + string list) \<times> World" where
  "ReadSOPSConfig env w jp =
     (let configPath = Join [jp, ''.sops.yaml'']
      in case os_ReadFile env w configPath of
           (Inl err, w') \<Rightarrow> (Inl (Wrap ''failed to read .sops.yaml'' err), w')
         | (Inr data, w') \<Rightarrow>
             (case Unmarshal_sops env data of
                Inl err \<Rightarrow> (Inl (Wrap ''failed to parse .sops.yaml'' err), w')
              | Inr config \<Rightarrow>
                  (case CreationRules config of
                     [] \<Rightarrow> (Inl (Msg ''no creation rules found in .sops.yaml''), w')
                   | rule0 # _ \<Rightarrow>
                       if Age rule0 = '''' then (Inl (Msg ''no age recipients found in .sops.yaml''), w')
                       else (Inr (map TrimSpace (split_on (CHR '','') (Age rule0))), w'))))"

definition NewEncryptor :: "Env \<Rightarrow> World \<Rightarrow> string \<Rightarrow> (error + Encryptor) \<times> World" where
  "NewEncryptor env w jp =
     (case ReadSOPSConfig env w jp of
        (Inl err, w') \<Rightarrow> (Inl (Wrap ''failed to read SOPS config'' err), w')
      | (Inr rs, w') \<Rightarrow> (Inr \<lparr>journalPath = jp, recipients = rs\<rparr>, w'))"

text \<open>
  \<^verbatim>\<open>EncryptYAMLInMemory\<close>, given what \<^verbatim>\<open>yaml.Marshal(data)\<close> returned: the provider encrypts
  for the encryptor's recipients, and only the encrypted result is written.
\<close>

definition EncryptYAMLInMemory ::
    "Env \<Rightarrow> Encryptor \<Rightarrow> World \<Rightarrow> (error + string) \<Rightarrow> string \<Rightarrow> error option \<times> World" where
  "EncryptYAMLInMemory env e w marshalled filePath =
     (case marshalled of
        Inl err \<Rightarrow> (Some (Wrap ''failed to marshal YAML'' err), w)
      | Inr yamlData \<Rightarrow>
          (case sops_encrypt env (recipients e) yamlData of
             Inl err \<Rightarrow> (Some err, w)
           | Inr encryptedData \<Rightarrow>
               (case os_WriteFile env w filePath encryptedData of
                  (Some err, w') \<Rightarrow> (Some (Wrap ''failed to write encrypted file'' err), w')
                | (None, w') \<Rightarrow> (None, w'))))"

definition DecryptFile :: "Env \<Rightarrow> World \<Rightarrow> string \<Rightarrow> (error + string) \<times> World" where
  "DecryptFile env w filePath =
     (case os_ReadFile env w filePath of
        (Inl err, w') \<Rightarrow> (Inl (Wrap ''failed to decrypt file'' err), w')
      | (Inr data, w') \<Rightarrow>
          (case sops_decrypt env data of
             Inl err \<Rightarrow> (Inl (Wrap ''failed to decrypt file'' err), w')
           | Inr cleartext \<Rightarrow> (Inr cleartext, w')))"

text \<open>\<^verbatim>\<open>DecryptYAML\<close> with an \<^verbatim>\<open>Index\<close> as its target.\<close>

definition DecryptYAML_index :: "Env \<Rightarrow> World \<Rightarrow> string \<Rightarrow> (error + Index) \<times> World" where
  "DecryptYAML_index env w filePath =
     (case DecryptFile env w filePath of
        (Inl err, w') \<Rightarrow> (Inl err, w')
      | (Inr decrypted, w') \<Rightarrow>
          (case Unmarshal_index env decrypted of
             Inl err \<Rightarrow> (Inl (Wrap ''failed to unmarshal YAML'' err), w')
           | Inr target \<Rightarrow> (Inr target, w')))"

section \<open>Storage (internal/storage/storage.go)\<close>

definition IndexFileName :: string where
  "IndexFileName = ''index.yaml''"

definition EntriesDir :: string where
  "EntriesDir = ''entries''"

record Storage =
  basePath :: string
  encryptor :: Encryptor

definition NewStorage :: "Env \<Rightarrow> World \<Rightarrow> string \<Rightarrow> (error + Storage) \<times> World" where
  "NewStorage env w bp =
     (case NewEncryptor env w bp of
        (Inl err, w') \<Rightarrow> (Inl (Wrap ''failed to create SOPS encryptor'' err), w')
      | (Inr enc, w') \<Rightarrow> (Inr \<lparr>basePath = bp, encryptor = enc\<rparr>, w'))"

definition Initialize :: "Env \<Rightarrow> Storage \<Rightarrow> World \<Rightarrow> error option \<times> World" where
  "Initialize env s w =
     (case os_MkdirAll env w (Join [basePath s, EntriesDir]) of
        (Some err, w') \<Rightarrow> (Some (Wrap ''failed to create entries directory'' err), w')
      | (None, w') \<Rightarrow>
          if IsNotExist (os_Stat w' (Join [basePath s, ''.sops.yaml'']))
          then (Some (Msg (''.sops.yaml not found in '' @ basePath s @
                  '' - please initialize journal with recipients first'')), w')
          else (None, w'))"

definition SaveEntry :: "Env \<Rightarrow> Storage \<Rightarrow> World \<Rightarrow> EntryV1 \<Rightarrow> error option \<times> World" where
  "SaveEntry env s w entry =
     (let year = Format_2006 (Date entry);
          month = Format_01 (Date entry);
          dirPath = Join [basePath s, EntriesDir, year, month]
      in case os_MkdirAll env w dirPath of
           (Some err, w') \<Rightarrow> (Some (Wrap ''failed to create directory'' err), w')
         | (None, w') \<Rightarrow>
             (let filename = Id entry @ ''.yaml'';
                  filePath = Join [dirPath, filename]
              in case EncryptYAMLInMemory env (encryptor s) w' (Marshal_entry env entry) filePath of
                   (Some err, w'') \<Rightarrow> (Some (Wrap ''failed to encrypt and save entry'' err), w'')
                 | (None, w'') \<Rightarrow> (None, w'')))"

definition LoadEntry :: "Env \<Rightarrow> Storage \<Rightarrow> World \<Rightarrow> string \<Rightarrow> string \<Rightarrow> (error + EntryV1) \<times> World" where
  "LoadEntry env s w i relFilePath =
     (let fullPath = Join [basePath s, EntriesDir, relFilePath]
      in case DecryptFile env w fullPath of
           (Inl err, w') \<Rightarrow> (Inl (Wrap ''failed to decrypt entry'' err), w')
         | (Inr decryptedData, w') \<Rightarrow>
             (case ParseYaml env decryptedData of
                Inl err \<Rightarrow> (Inl (Wrap ''failed to parse entry'' err), w')
              | Inr entry \<Rightarrow> (Inr entry, w')))"

definition DeleteEntry :: "Env \<Rightarrow> Storage \<Rightarrow> World \<Rightarrow> string \<Rightarrow> error option \<times> World" where
  "DeleteEntry env s w relFilePath =
     (let fullPath = Join [basePath s, EntriesDir, relFilePath]
      in case os_Remove env w fullPath of
           (Some err, w') \<Rightarrow> (Some (Wrap ''failed to delete entry file'' err), w')
         | (None, w') \<Rightarrow> (None, w'))"

definition SaveIndex :: "Env \<Rightarrow> Storage \<Rightarrow> World \<Rightarrow> Index \<Rightarrow> error option \<times> World" where
  "SaveIndex env s w idx =
     (let indexPath = Join [basePath s, IndexFileName]
      in case EncryptYAMLInMemory env (encryptor s) w (Marshal_index env idx) indexPath of
           (Some err, w') \<Rightarrow> (Some (Wrap ''failed to encrypt and save index'' err), w')
         | (None, w') \<Rightarrow> (None, w'))"

definition LoadIndex :: "Env \<Rightarrow> Storage \<Rightarrow> World \<Rightarrow> (error + Index) \<times> World" where
  "LoadIndex env s w =
     (let indexPath = Join [basePath s, IndexFileName]
      in if IsNotExist (os_Stat w indexPath) then (Inr NewIndex, w)
         else (case DecryptYAML_index env w indexPath of
                 (Inl err, w') \<Rightarrow> (Inl (Wrap ''failed to decrypt and parse index'' err), w')
               | (Inr idx, w') \<Rightarrow> (Inr idx, w')))"

definition GetEntryPath :: "Storage \<Rightarrow> Time \<Rightarrow> string \<Rightarrow> string" where
  "GetEntryPath s date i =
     (let year = Format_2006 date;
          month = Format_01 date;
          filename = i @ ''.yaml''
      in Join [year, month, filename])"

section \<open>The journal (package entry)\<close>

record Config_Journal =
  Name :: string
  Path :: string

record Journal =
  config :: Config_Journal
  storage :: Storage
  index :: Index

definition NewJournalFromConfig :: "Env \<Rightarrow> World \<Rightarrow> Config_Journal \<Rightarrow> (error + Journal) \<times> World" where
  "NewJournalFromConfig env w cfg =
     (case NewStorage env w (Path cfg) of
        (Inl err, w1) \<Rightarrow> (Inl (Wrap ''failed to create storage'' err), w1)
      | (Inr store, w1) \<Rightarrow>
          (case Initialize env store w1 of
             (Some err, w2) \<Rightarrow> (Inl (Wrap ''failed to initialize storage'' err), w2)
           | (None, w2) \<Rightarrow>
               (case LoadIndex env store w2 of
                  (Inl err, w3) \<Rightarrow> (Inl (Wrap ''failed to load index'' err), w3)
                | (Inr idx, w3) \<Rightarrow> (Inr \<lparr>config = cfg, storage = store, index = idx\<rparr>, w3))))"

text \<open>
  \<^verbatim>\<open>Journal.Add\<close>. The id \<^verbatim>\<open>uuid.New().String()\<close> and the clock reading \<^verbatim>\<open>time.Now()\<close>
  are inputs. \<open>new_entry\<close> is the entry built by the first two statements: the
  constructor call, then the assignment of the file path. The result of \<open>Journal_Add\<close> is
  the error or the new entry, the journal with its in-memory index, and the world.
\<close>

definition new_entry :: "Storage \<Rightarrow> string \<Rightarrow> Time \<Rightarrow> string \<Rightarrow> string list \<Rightarrow> EntryV1" where
  "new_entry s new_uuid now content tags =
     (let entry = NewEntryV1 new_uuid now content tags ''''
      in entry\<lparr>FilePath := GetEntryPath s (Date entry) (Id entry)\<rparr>)"

definition Journal_Add ::
    "Env \<Rightarrow> Journal \<Rightarrow> World \<Rightarrow> string \<Rightarrow> Time \<Rightarrow> string \<Rightarrow> string list
     \<Rightarrow> (error + EntryV1) \<times> Journal \<times> World" where
  "Journal_Add env j w new_uuid now content tags =
     (let entry = new_entry (storage j) new_uuid now content tags
      in case SaveEntry env (storage j) w entry of
           (Some err, w1) \<Rightarrow> (Inl (Wrap ''failed to save entry'' err), j, w1)
         | (None, w1) \<Rightarrow>
             (let j1 = j\<lparr>index := Add (index j) entry\<rparr>
              in case SaveIndex env (storage j1) w1 (index j1) of
                   (Some err, w2) \<Rightarrow> (Inl (Wrap ''failed to save index'' err), j1, w2)
                 | (None, w2) \<Rightarrow> (Inr entry, j1, w2)))"

definition Journal_Get :: "Env \<Rightarrow> Journal \<Rightarrow> World \<Rightarrow> string \<Rightarrow> (error + EntryV1) \<times> World" where
  "Journal_Get env j w i =
     (case GetMetadata (index j) i of
        None \<Rightarrow> (Inl (Msg (''entry not found: '' @ i)), w)
      | Some meta \<Rightarrow>
          (case LoadEntry env (storage j) w i (FilePath meta) of
             (Inl err, w') \<Rightarrow> (Inl (Wrap ''failed to load entry'' err), w')
           | (Inr entry, w') \<Rightarrow> (Inr entry, w')))"

definition Journal_Delete :: "Env \<Rightarrow> Journal \<Rightarrow> World \<Rightarrow> string \<Rightarrow> error option \<times> Journal \<times> World" where
  "Journal_Delete env j w i =
     (case GetMetadata (index j) i of
        None \<Rightarrow> (Some (Msg (''entry not found: '' @ i)), j, w)
      | Some meta \<Rightarrow>
          (case DeleteEntry env (storage j) w (FilePath meta) of
             (Some err, w1) \<Rightarrow> (Some (Wrap ''failed to delete entry'' err), j, w1)
           | (None, w1) \<Rightarrow>
               (let j1 = j\<lparr>index := Remove (index j) i\<rparr>
                in case SaveIndex env (storage j1) w1 (index j1) of
                     (Some err, w2) \<Rightarrow> (Some (Wrap ''failed to save index'' err), j1, w2)
                   | (None, w2) \<Rightarrow> (None, j1, w2))))"

section \<open>Properties of the journal operations\<close>


subsection \<open>A concrete store, for the closed instances\<close>

text \<open>
  An environment whose collaborators always succeed: the marshalled form of an entry is its
  content, encryption brackets the plain text, every key is accepted, the recipient file
  holds one rule with one key, and no file-system call fails.
\<close>

definition env_ok :: Env where
  "env_ok = \<lparr>Marshal_entry = (\<lambda>e. Inr (Content e)),
             Marshal_index = (\<lambda>i. Inr ''index''),
             Unmarshal_version = (\<lambda>b. Inr 1),
             Unmarshal_entry = (\<lambda>b. Inl (Msg ''not decoded'')),
             Unmarshal_index = (\<lambda>b. Inr NewIndex),
             sops_encrypt = (\<lambda>rs b. Inr (''ENC['' @ b @ '']'')),
             sops_decrypt = (\<lambda>b. Inr b),
             ParseX25519Recipient = (\<lambda>r. None),
             Marshal_sops = (\<lambda>c. Inr (strings_Join (map Age (CreationRules c)) '';'')),
             Unmarshal_sops = (\<lambda>b. Inr \<lparr>CreationRules = [\<lparr>PathRegex = ''index'', Age = b\<rparr>]\<rparr>),
             faults = (\<lambda>n. None),
             pid = 4242\<rparr>"

text \<open>The same environment with the first fallible file-system call failing.\<close>

definition env_disk_full :: Env where
  "env_disk_full = env_ok\<lparr>faults := (\<lambda>n. if n = 0 then Some ''no space left on device'' else None)\<rparr>"

definition world0 :: World where
  "world0 = \<lparr>files = [''/home/u/journal/.sops.yaml'' \<mapsto> ''age1qqqq''], tick = 0, stdout = []\<rparr>"

definition storage0 :: Storage where
  "storage0 = \<lparr>basePath = ''/home/u/journal'',
               encryptor = \<lparr>journalPath = ''/home/u/journal'', recipients = [''age1qqqq'']\<rparr>\<rparr>"

definition config0 :: Config_Journal where
  "config0 = \<lparr>Name = ''personal'', Path = ''/home/u/journal''\<rparr>"

definition journal0 :: Journal where
  "journal0 = \<lparr>config = config0, storage = storage0, index = NewIndex\<rparr>"

definition uuid0 :: string where
  "uuid0 = ''123e4567-e89b-12d3-a456-426614174000''"

text \<open>2024-12-31T23:30:00Z, read on a machine whose local zone is one hour east of UTC.\<close>

definition new_year_eve :: Time where
  "new_year_eve = \<lparr>unix_ns = 1735687800000000000, zone_off = 3600\<rparr>"

definition utc_location :: "Time \<Rightarrow> string \<Rightarrow> string" where
  "utc_location t i = Format_2006 (UTC t) @ ''/'' @ Format_01 (UTC t) @ ''/'' @ i @ ''.yaml''"

subsection \<open>Paths\<close>

lemma split_on_not_Nil [simp]: "split_on c s \<noteq> []"
  by (induction s) (auto split: list.splits)

lemma split_on_plain: "c \<notin> set a \<Longrightarrow> split_on c a = [a]"
  by (induction a) (auto split: list.splits)

lemma split_on_append: "c \<notin> set a \<Longrightarrow> split_on c (a @ c # rest) = a # split_on c rest"
  by (induction a) (auto split: list.splits)

definition plain_elem :: "string \<Rightarrow> bool" where
  "plain_elem s = (s \<noteq> '''' \<and> CHR ''/'' \<notin> set s \<and> s \<noteq> ''.'' \<and> s \<noteq> ''..'')"

lemma Clean_three:
  assumes "plain_elem a" "plain_elem b" "plain_elem c"
  shows "Clean (a @ ''/'' @ b @ ''/'' @ c) = a @ ''/'' @ b @ ''/'' @ c"
proof -
  have sp: "split_on (CHR ''/'') (a @ ''/'' @ b @ ''/'' @ c) = [a, b, c]"
    using assms by (simp add: plain_elem_def split_on_append split_on_plain)
  have st: "foldl (clean_step False) [] [a, b, c] = [a, b, c]"
    using assms by (simp add: plain_elem_def clean_step_def)
  have hd: "hd (a @ ''/'' @ b @ ''/'' @ c) \<noteq> CHR ''/''"
    using assms(1) by (cases a) (auto simp: plain_elem_def)
  have ne: "a @ ''/'' @ b @ ''/'' @ c \<noteq> ''''"
    using assms(1) by (simp add: plain_elem_def)
  show ?thesis
    unfolding Clean_def using hd ne sp st by (simp add: Let_def)
qed

lemma Join_three:
  assumes "plain_elem a" "plain_elem b" "plain_elem c"
  shows "Join [a, b, c] = a @ ''/'' @ b @ ''/'' @ c"
  using Clean_three[OF assms] assms(1) by (simp add: plain_elem_def Join.simps)

lemma digit_not_special:
  assumes "k < (10::nat)"
  shows "char_of (48 + k) \<noteq> CHR ''/''" "char_of (48 + k) \<noteq> CHR ''.''" "char_of (48 + k) \<noteq> CHR ''-''"
proof -
  have v: "(of_char (char_of (48 + k)) :: nat) = 48 + k" using assms by simp
  show "char_of (48 + k) \<noteq> CHR ''/''"
  proof
    assume "char_of (48 + k) = CHR ''/''"
    then have "(of_char (char_of (48 + k)) :: nat) = of_char (CHR ''/'')" by simp
    then show False using v by simp
  qed
  show "char_of (48 + k) \<noteq> CHR ''.''"
  proof
    assume "char_of (48 + k) = CHR ''.''"
    then have "(of_char (char_of (48 + k)) :: nat) = of_char (CHR ''.'')" by simp
    then show False using v by simp
  qed
  show "char_of (48 + k) \<noteq> CHR ''-''"
  proof
    assume "char_of (48 + k) = CHR ''-''"
    then have "(of_char (char_of (48 + k)) :: nat) = of_char (CHR ''-'')" by simp
    then show False using v by simp
  qed
qed

lemma decimal_chars:
  "decimal n \<noteq> [] \<and> CHR ''/'' \<notin> set (decimal n) \<and> CHR ''.'' \<notin> set (decimal n)"
proof (induction n rule: decimal.induct)
  case (1 n)
  show ?case
  proof (cases "n < 10")
    case True
    then show ?thesis
      using digit_not_special[of n] by (subst (1 2 3) decimal.simps) auto
  next
    case False
    have "n mod 10 < 10" by simp
    then show ?thesis
      using False "1.IH" digit_not_special[of "n mod 10"]
      by (subst (1 2 3) decimal.simps) auto
  qed
qed

lemma appendInt_chars:
  "appendInt x w \<noteq> [] \<and> CHR ''/'' \<notin> set (appendInt x w) \<and> CHR ''.'' \<notin> set (appendInt x w)"
  using decimal_chars[of "nat \<bar>x\<bar>"] by (auto simp: appendInt_def Let_def)

lemma plain_appendInt: "plain_elem (appendInt x w)"
proof -
  have "CHR ''.'' \<notin> set (appendInt x w)" using appendInt_chars by blast
  then have "appendInt x w \<noteq> ''.''" "appendInt x w \<noteq> ''..''" by auto
  then show ?thesis using appendInt_chars[of x w] by (simp add: plain_elem_def)
qed

lemma plain_yaml_name: "CHR ''/'' \<notin> set i \<Longrightarrow> plain_elem (i @ ''.yaml'')"
proof -
  assume a: "CHR ''/'' \<notin> set i"
  have "length (i @ ''.yaml'') \<noteq> length ''.''" "length (i @ ''.yaml'') \<noteq> length ''..''"
    by simp_all
  then have "i @ ''.yaml'' \<noteq> ''.''" "i @ ''.yaml'' \<noteq> ''..''"
    by fastforce+
  then show ?thesis using a by (simp add: plain_elem_def)
qed

lemma GetEntryPath_plain:
  assumes "CHR ''/'' \<notin> set i"
  shows "GetEntryPath s date i = Format_2006 date @ ''/'' @ Format_01 date @ ''/'' @ i @ ''.yaml''"
proof -
  obtain y m d where td: "Time_Date date = (y, m, d)"
    by (cases "Time_Date date") auto
  have "GetEntryPath s date i = Join [appendInt y 4, appendInt m 2, i @ ''.yaml'']"
    by (simp add: GetEntryPath_def Let_def Format_2006_def Format_01_def td)
  also have "\<dots> = appendInt y 4 @ ''/'' @ appendInt m 2 @ ''/'' @ i @ ''.yaml''"
    by (rule Join_three) (simp_all add: plain_appendInt plain_yaml_name assms)
  finally show ?thesis
    by (simp add: Format_2006_def Format_01_def td)
qed

lemma new_entry_fields:
  "Id (new_entry s u now c ts) = u" "Date (new_entry s u now c ts) = now"
  "Tags (new_entry s u now c ts) = ts" "Content (new_entry s u now c ts) = c"
  "Version (new_entry s u now c ts) = 1"
  "FilePath (new_entry s u now c ts) = GetEntryPath s now u"
  by (simp_all add: new_entry_def NewEntryV1_def Let_def)

lemma Journal_Add_Inr:
  "fst (Journal_Add env j w u now c ts) = Inr e \<Longrightarrow> e = new_entry (storage j) u now c ts"
  by (auto simp: Journal_Add_def Let_def split: prod.splits option.splits)

subsection \<open>Claim C9: where a new entry is stored\<close>

text \<open>
  Claim C9 as stated fails: it computes the location from the UTC year and month of the
  creation time. \<^verbatim>\<open>Journal.Add\<close> takes \<^verbatim>\<open>time.Now()\<close>, which shows the machine's local zone,
  and \<^verbatim>\<open>GetEntryPath\<close> formats that value as it is. An entry added at 2024-12-31T23:30:00Z
  on a machine one hour east of UTC is stored under \<open>2025/01\<close>, not under \<open>2024/12\<close>.
\<close>

theorem Add_location_counterexample:
  "(case fst (Journal_Add env_ok journal0 world0 uuid0 new_year_eve ''Happy new year'' [''party'']) of
      Inr e \<Rightarrow> FilePath e = ''2025/01/123e4567-e89b-12d3-a456-426614174000.yaml'' \<and>
               utc_location new_year_eve uuid0 = ''2024/12/123e4567-e89b-12d3-a456-426614174000.yaml'' \<and>
               FilePath e \<noteq> utc_location new_year_eve uuid0
    | Inl err \<Rightarrow> False)"
  by code_simp

text \<open>
  Claim C9, amended: for every record created by \<^verbatim>\<open>Journal.Add\<close> with creation timestamp
  \<open>t\<close> and assigned id \<open>i\<close> (an id without a path separator, as every UUID string is),
  the record carries id \<open>i\<close> and date \<open>t\<close> and its stored relative location is
  \<open>{year}/{month}/{i}.yaml\<close>, where year is the calendar year of \<open>t\<close> padded to four digits
  and month is the two-digit month of \<open>t\<close>, both read in the location \<open>t\<close> carries (the
  local zone of the machine): the location is a function of \<open>t\<close> and \<open>i\<close> alone.
\<close>

theorem Add_location_is_local_year_month:
  assumes "CHR ''/'' \<notin> set new_uuid"
    and "fst (Journal_Add env j w new_uuid now content tags) = Inr e"
  shows "Id e = new_uuid \<and> Date e = now \<and>
         FilePath e = Format_2006 now @ ''/'' @ Format_01 now @ ''/'' @ new_uuid @ ''.yaml''"
  using Journal_Add_Inr[OF assms(2)] GetEntryPath_plain[OF assms(1)]
  by (simp add: new_entry_fields)

theorem Add_location_witness:
  "CHR ''/'' \<notin> set uuid0 \<and>
   fst (Journal_Add env_ok journal0 world0 uuid0 new_year_eve ''Happy new year'' [''party'']) =
     Inr (new_entry storage0 uuid0 new_year_eve ''Happy new year'' [''party'']) \<and>
   FilePath (new_entry storage0 uuid0 new_year_eve ''Happy new year'' [''party'']) =
     Format_2006 new_year_eve @ ''/'' @ Format_01 new_year_eve @ ''/'' @ uuid0 @ ''.yaml''"
proof -
  have h1: "CHR ''/'' \<notin> set uuid0"
    by code_simp
  have h2: "fst (Journal_Add env_ok journal0 world0 uuid0 new_year_eve ''Happy new year'' [''party'']) =
     Inr (new_entry storage0 uuid0 new_year_eve ''Happy new year'' [''party''])"
    by code_simp
  from Add_location_is_local_year_month[OF h1 h2] h1 h2 show ?thesis
    by blast
qed

subsection \<open>Claim C5: a failed entry write leaves the index alone\<close>

lemma os_MkdirAll_files: "files (snd (os_MkdirAll env w p)) = files w"
  by (simp add: os_MkdirAll_def Let_def split: option.splits)

lemma EncryptYAMLInMemory_failure_files:
  "fst (EncryptYAMLInMemory env e w m p) = Some err \<Longrightarrow>
   files (snd (EncryptYAMLInMemory env e w m p)) = files w"
  by (auto simp: EncryptYAMLInMemory_def os_WriteFile_def Let_def
      split: prod.splits option.splits sum.splits)

lemma SaveEntry_failure_files:
  assumes "fst (SaveEntry env s w e) = Some err"
  shows "files (snd (SaveEntry env s w e)) = files w"
proof -
  let ?dir = "Join [basePath s, EntriesDir, Format_2006 (Date e), Format_01 (Date e)]"
  obtain r w1 where mk: "os_MkdirAll env w ?dir = (r, w1)"
    by (cases "os_MkdirAll env w ?dir")
  have f1: "files w1 = files w"
    using os_MkdirAll_files[of env w ?dir] mk by simp
  show ?thesis
  proof (cases r)
    case (Some x)
    then show ?thesis using mk f1 by (simp add: SaveEntry_def Let_def)
  next
    case None
    let ?enc = "EncryptYAMLInMemory env (encryptor s) w1 (Marshal_entry env e)
                  (Join [?dir, Id e @ ''.yaml''])"
    obtain r2 w2 where en: "?enc = (r2, w2)" by (cases ?enc)
    have se: "SaveEntry env s w e =
        (case r2 of Some err \<Rightarrow> (Some (Wrap ''failed to encrypt and save entry'' err), w2)
                  | None \<Rightarrow> (None, w2))"
      using mk None en by (simp add: SaveEntry_def Let_def split: option.splits)
    then obtain err2 where r2: "r2 = Some err2"
      using assms by (cases r2) auto
    have "files w2 = files w1"
      using EncryptYAMLInMemory_failure_files[of env "encryptor s" w1 "Marshal_entry env e"
              "Join [?dir, Id e @ ''.yaml'']" err2] en r2 by simp
    then show ?thesis using se r2 f1 by simp
  qed
qed

text \<open>
  Claim C5: whenever \<^verbatim>\<open>storage.SaveEntry\<close> fails for the new entry, \<^verbatim>\<open>Journal.Add\<close>
  returns an error, the journal and its in-memory index are what they were, no file on
  disk has changed (so the persisted index is not rewritten), and an id that the index did
  not hold before is not in it afterwards.
\<close>

theorem Add_save_failure_leaves_index:
  assumes "fst (SaveEntry env (storage j) w (new_entry (storage j) new_uuid now content tags)) = Some err"
  shows "fst (Journal_Add env j w new_uuid now content tags) = Inl (Wrap ''failed to save entry'' err) \<and>
         fst (snd (Journal_Add env j w new_uuid now content tags)) = j \<and>
         files (snd (snd (Journal_Add env j w new_uuid now content tags))) = files w \<and>
         (Entries (index j) new_uuid = None \<longrightarrow>
            GetMetadata (index (fst (snd (Journal_Add env j w new_uuid now content tags)))) new_uuid = None)"
proof -
  obtain w1 where s: "SaveEntry env (storage j) w (new_entry (storage j) new_uuid now content tags) = (Some err, w1)"
    using assms by (cases "SaveEntry env (storage j) w (new_entry (storage j) new_uuid now content tags)") auto
  have r: "Journal_Add env j w new_uuid now content tags = (Inl (Wrap ''failed to save entry'' err), j, w1)"
    by (simp add: Journal_Add_def Let_def s)
  have "files w1 = files w"
    using SaveEntry_failure_files[OF assms] s by simp
  then show ?thesis
    by (simp add: r GetMetadata_def)
qed

theorem Add_save_failure_witness:
  "fst (SaveEntry env_disk_full (storage journal0) world0
         (new_entry (storage journal0) uuid0 new_year_eve ''Happy new year'' [''party''])) =
     Some (Wrap ''failed to create directory'' (OsError ''no space left on device'')) \<and>
   fst (Journal_Add env_disk_full journal0 world0 uuid0 new_year_eve ''Happy new year'' [''party'']) =
     Inl (Wrap ''failed to save entry''
           (Wrap ''failed to create directory'' (OsError ''no space left on device''))) \<and>
   fst (snd (Journal_Add env_disk_full journal0 world0 uuid0 new_year_eve ''Happy new year'' [''party''])) =
     journal0 \<and>
   files (snd (snd (Journal_Add env_disk_full journal0 world0 uuid0 new_year_eve ''Happy new year'' [''party'']))) =
     files world0 \<and>
   Entries (index journal0) uuid0 = None \<and>
   GetMetadata (index (fst (snd (Journal_Add env_disk_full journal0 world0 uuid0 new_year_eve
       ''Happy new year'' [''party''])))) uuid0 = None"
proof -
  have h: "fst (SaveEntry env_disk_full (storage journal0) world0
         (new_entry (storage journal0) uuid0 new_year_eve ''Happy new year'' [''party''])) =
     Some (Wrap ''failed to create directory'' (OsError ''no space left on device''))"
    by code_simp
  have fresh: "Entries (index journal0) uuid0 = None"
    by (simp add: journal0_def NewIndex_def)
  from Add_save_failure_leaves_index[OF h] h fresh show ?thesis
    by blast
qed

subsection \<open>Claim C10: a store without an index file opens empty\<close>

lemma os_Stat_absent: "files w p = None \<Longrightarrow> IsNotExist (os_Stat w p)"
  by (simp add: os_Stat_def)

lemma LoadIndex_absent:
  "files w (Join [basePath s, IndexFileName]) = None \<Longrightarrow> LoadIndex env s w = (Inr NewIndex, w)"
  by (simp add: LoadIndex_def Let_def os_Stat_absent)

lemma os_ReadFile_files: "files (snd (os_ReadFile env w p)) = files w"
  by (simp add: os_ReadFile_def Let_def split: option.splits)

lemma NewStorage_files: "files (snd (NewStorage env w bp)) = files w"
  using os_ReadFile_files[of env w "Join [bp, ''.sops.yaml'']"]
  by (auto simp: NewStorage_def NewEncryptor_def ReadSOPSConfig_def Let_def
      split: prod.splits sum.splits list.splits if_splits)

lemma NewStorage_basePath: "fst (NewStorage env w bp) = Inr store \<Longrightarrow> basePath store = bp"
  by (auto simp: NewStorage_def split: prod.splits sum.splits)

lemma Initialize_files: "files (snd (Initialize env s w)) = files w"
  by (auto simp: Initialize_def os_MkdirAll_def Let_def split: prod.splits option.splits)

text \<open>
  Claim C10: when the index file does not exist, \<^verbatim>\<open>Storage.LoadIndex\<close> succeeds with the
  fresh empty index of \<^verbatim>\<open>NewIndex\<close> (empty primary map, empty date and tag buckets) and
  leaves the world as it is; so \<^verbatim>\<open>NewJournalFromConfig\<close>, once the storage is created and
  initialised, opens a journal with zero entries.
\<close>

theorem missing_index_file_gives_empty_index:
  "(files w (Join [basePath s, IndexFileName]) = None \<longrightarrow>
      LoadIndex env s w = (Inr NewIndex, w)) \<and>
   (files w (Join [Path cfg, IndexFileName]) = None \<and>
    fst (NewStorage env w (Path cfg)) = Inr store \<and>
    fst (Initialize env store (snd (NewStorage env w (Path cfg)))) = None \<longrightarrow>
      fst (NewJournalFromConfig env w cfg) = Inr \<lparr>config = cfg, storage = store, index = NewIndex\<rparr>) \<and>
   Entries NewIndex = Map.empty \<and> ByDate NewIndex = Map.empty \<and> ByTag NewIndex = Map.empty"
proof (intro conjI impI)
  assume "files w (Join [basePath s, IndexFileName]) = None"
  then show "LoadIndex env s w = (Inr NewIndex, w)" by (rule LoadIndex_absent)
next
  assume a: "files w (Join [Path cfg, IndexFileName]) = None \<and>
    fst (NewStorage env w (Path cfg)) = Inr store \<and>
    fst (Initialize env store (snd (NewStorage env w (Path cfg)))) = None"
  obtain w1 where ns: "NewStorage env w (Path cfg) = (Inr store, w1)"
    using a by (cases "NewStorage env w (Path cfg)") auto
  obtain w2 where ini: "Initialize env store w1 = (None, w2)"
    using a ns by (cases "Initialize env store w1") auto
  have bp: "basePath store = Path cfg"
    using NewStorage_basePath[of env w "Path cfg" store] ns by simp
  have "files w1 = files w" using NewStorage_files[of env w "Path cfg"] ns by simp
  moreover have "files w2 = files w1" using Initialize_files[of env store w1] ini by simp
  ultimately have "files w2 (Join [basePath store, IndexFileName]) = None"
    using a bp by simp
  then have "LoadIndex env store w2 = (Inr NewIndex, w2)" by (rule LoadIndex_absent)
  then show "fst (NewJournalFromConfig env w cfg) = Inr \<lparr>config = cfg, storage = store, index = NewIndex\<rparr>"
    by (simp add: NewJournalFromConfig_def ns ini)
qed (simp_all add: NewIndex_def)

theorem missing_index_file_witness:
  "files world0 (Join [basePath storage0, IndexFileName]) = None \<and>
   LoadIndex env_ok storage0 world0 = (Inr NewIndex, world0) \<and>
   files world0 (Join [Path config0, IndexFileName]) = None \<and>
   fst (NewStorage env_ok world0 (Path config0)) = Inr storage0 \<and>
   fst (Initialize env_ok storage0 (snd (NewStorage env_ok world0 (Path config0)))) = None \<and>
   fst (NewJournalFromConfig env_ok world0 config0) =
     Inr \<lparr>config = config0, storage = storage0, index = NewIndex\<rparr>"
proof -
  have h1: "files world0 (Join [basePath storage0, IndexFileName]) = None"
    by code_simp
  have h2: "files world0 (Join [Path config0, IndexFileName]) = None"
    by code_simp
  have h3: "fst (NewStorage env_ok world0 (Path config0)) = Inr storage0"
    by code_simp
  have h4: "fst (Initialize env_ok storage0 (snd (NewStorage env_ok world0 (Path config0)))) = None"
    by code_simp
  from missing_index_file_gives_empty_index[of world0 storage0 env_ok config0 storage0] h1 h2 h3 h4
  show ?thesis
    by blast
qed

subsection \<open>Claim C1: resolving an id or a prefix\<close>

text \<open>The journal after one successful \<^verbatim>\<open>Add\<close> to the empty store.\<close>

definition journal1 :: Journal where
  "journal1 = fst (snd (Journal_Add env_ok journal0 world0 uuid0 new_year_eve ''Happy new year'' [''party'']))"

text \<open>
  Claim C1: \<^verbatim>\<open>Journal.Get\<close> and \<^verbatim>\<open>Journal.Delete\<close> resolve a prefix of at least eight
  characters that one indexed id starts with, and reject a shorter input as too short.
  Both functions look the input up in the primary map as it is and do nothing else: with
  the single id \<open>123e4567-e89b-12d3-a456-426614174000\<close> stored, the full id is found, its
  first eight characters are reported as not found, and so are its first seven characters,
  with the same message and no word of the input being too short.
\<close>

theorem Get_and_Delete_take_full_ids_only:
  "GetMetadata (index journal1) uuid0 \<noteq> None \<and>
   fst (Journal_Get env_ok journal1 world0 (take 8 uuid0)) = Inl (Msg ''entry not found: 123e4567'') \<and>
   fst (Journal_Get env_ok journal1 world0 (take 7 uuid0)) = Inl (Msg ''entry not found: 123e456'') \<and>
   fst (Journal_Delete env_ok journal1 world0 (take 8 uuid0)) = Some (Msg ''entry not found: 123e4567'') \<and>
   fst (Journal_Delete env_ok journal1 world0 (take 7 uuid0)) = Some (Msg ''entry not found: 123e456'')"
  by code_simp

end
